theory Spec2Isabelle
  imports Main
begin

section \<open>Strings and characters\<close>

text \<open>
  A TypeScript string is modelled as a \<^typ>\<open>string\<close>; a \<^typ>\<open>char\<close> stands for the
  code unit with the same number, so the model covers the code units 0 to 255 (ASCII
  and Latin-1). The character classes below are the ones of ECMAScript restricted to
  that range.
\<close>

definition code :: "char \<Rightarrow> nat" where
  "code c = of_char c"

text \<open>\<open>\d\<close>: the ten ASCII digits.\<close>

definition is_digit :: "char \<Rightarrow> bool" where
  "is_digit c = (48 \<le> code c \<and> code c \<le> 57)"

text \<open>
  \<open>\s\<close>, and the characters removed by \<open>String.prototype.trim\<close>: white space and line
  terminators (TAB, LF, VT, FF, CR, SPACE, NBSP in this range).
\<close>

definition is_space :: "char \<Rightarrow> bool" where
  "is_space c = (code c \<in> {9, 10, 11, 12, 13, 32, 160})"

text \<open>\<open>.\<close> (without the \<open>s\<close> flag) matches everything but a line terminator (LF, CR).\<close>

definition is_line_terminator :: "char \<Rightarrow> bool" where
  "is_line_terminator c = (code c \<in> {10, 13})"

definition is_lower :: "char \<Rightarrow> bool" where
  "is_lower c = (97 \<le> code c \<and> code c \<le> 122)"

definition is_upper :: "char \<Rightarrow> bool" where
  "is_upper c = (65 \<le> code c \<and> code c \<le> 90)"

text \<open>\<open>[a-z]\<close> under the \<open>i\<close> flag: the ASCII letters of both cases.\<close>

definition is_letter :: "char \<Rightarrow> bool" where
  "is_letter c = (is_lower c \<or> is_upper c)"

text \<open>
  Case folding of the \<open>i\<close> flag (without the \<open>u\<close> flag no character outside ASCII folds
  onto an ASCII letter), of SQLite's \<open>LIKE\<close> and of SQLite's \<open>LOWER\<close>: ASCII only.
\<close>

definition lower_char :: "char \<Rightarrow> char" where
  "lower_char c = (if is_upper c then char_of (code c + 32) else c)"

definition trim :: "string \<Rightarrow> string" where
  "trim s = rev (dropWhile is_space (rev (dropWhile is_space s)))"

section \<open>Regular expressions with backtracking\<close>

text \<open>
  The patterns of the source are run by a backtracking matcher. A state is the capture
  groups set so far and the rest of the input; \<open>rmatch r st\<close> lists the states in which
  a match of \<open>r\<close> from \<open>st\<close> can end, in the order in which backtracking tries them, so
  that the head of the list for a whole pattern is the match that \<open>String.prototype.match\<close>
  reports. A greedy quantifier lists the longer iterations first, a lazy one the shorter;
  an iteration of a quantifier that consumes nothing is dropped, as in ECMAScript. The
  patterns of the source have no group under a quantifier, no back-reference and no
  look-around, and none has the flags \<open>m\<close>, \<open>s\<close> or \<open>u\<close>; \<open>Eos\<close> is \<open>$\<close>.
\<close>

type_synonym captures = "nat \<Rightarrow> string option"
type_synonym mstate = "captures \<times> string"

datatype rx =
    Atom "char \<Rightarrow> bool"
  | Eps
  | Cat rx rx
  | Alt rx rx
  | Opt rx
  | Star rx
  | LazyStar rx
  | Grp nat rx
  | Eos

function rmatch :: "rx \<Rightarrow> mstate \<Rightarrow> mstate list" where
  "rmatch (Atom p) (c, s) = (case s of [] \<Rightarrow> [] | x # xs \<Rightarrow> if p x then [(c, xs)] else [])"
| "rmatch Eps (c, s) = [(c, s)]"
| "rmatch (Cat r1 r2) (c, s) = concat (map (rmatch r2) (rmatch r1 (c, s)))"
| "rmatch (Alt r1 r2) (c, s) = rmatch r1 (c, s) @ rmatch r2 (c, s)"
| "rmatch (Opt r) (c, s) =
     filter (\<lambda>(c', s'). length s' < length s) (rmatch r (c, s)) @ [(c, s)]"
| "rmatch (Star r) (c, s) =
     concat (map (\<lambda>(c', s'). if length s' < length s then rmatch (Star r) (c', s') else [])
                 (rmatch r (c, s))) @ [(c, s)]"
| "rmatch (LazyStar r) (c, s) =
     (c, s) #
     concat (map (\<lambda>(c', s'). if length s' < length s then rmatch (LazyStar r) (c', s') else [])
                 (rmatch r (c, s)))"
| "rmatch (Grp n r) (c, s) =
     map (\<lambda>(c', s'). (c'(n \<mapsto> take (length s - length s') s), s')) (rmatch r (c, s))"
| "rmatch Eos (c, s) = (if s = [] then [(c, s)] else [])"
  by pat_completeness auto
termination
  by (relation "measures [\<lambda>(r, c, s). size r, \<lambda>(r, c, s). length s]") auto

text \<open>\<open>r+\<close> and \<open>r+?\<close>: one iteration, then the starred form.\<close>

definition Plus :: "rx \<Rightarrow> rx" where
  "Plus r = Cat r (Star r)"

definition LazyPlus :: "rx \<Rightarrow> rx" where
  "LazyPlus r = Cat r (LazyStar r)"

fun cats :: "rx list \<Rightarrow> rx" where
  "cats [] = Eps"
| "cats [r] = r"
| "cats (r # rs) = Cat r (cats rs)"

fun alts :: "rx list \<Rightarrow> rx" where
  "alts [] = Atom (\<lambda>_. False)"
| "alts [r] = r"
| "alts (r # rs) = Alt r (alts rs)"

text \<open>A literal character and a literal word under the \<open>i\<close> flag.\<close>

definition chr_ci :: "char \<Rightarrow> rx" where
  "chr_ci a = Atom (\<lambda>x. lower_char x = lower_char a)"

definition word_ci :: "string \<Rightarrow> rx" where
  "word_ci w = cats (map chr_ci w)"

definition rx_digit :: rx where
  "rx_digit = Atom is_digit"

definition rx_space :: rx where
  "rx_space = Atom is_space"

definition rx_letter :: rx where
  "rx_letter = Atom is_letter"

definition rx_dot :: rx where
  "rx_dot = Atom (\<lambda>x. \<not> is_line_terminator x)"

text \<open>
  A pattern that starts with \<open>^\<close> can only match at the start of the string; every such
  pattern of the source has two groups, both outside of any quantifier, and ends with
  \<open>$\<close>. \<open>match2\<close> gives the two groups of the first match.
\<close>

definition match2 :: "rx \<Rightarrow> string \<Rightarrow> (string \<times> string) option" where
  "match2 r s =
     (case rmatch r (Map.empty, s) of
        [] \<Rightarrow> None
      | (c, _) # _ \<Rightarrow>
          (case (c 1, c 2) of (Some g1, Some g2) \<Rightarrow> Some (g1, g2) | _ \<Rightarrow> None))"

text \<open>
  A pattern without \<open>^\<close> is tried at every position from the left; \<open>search1\<close> gives
  group 1 of the leftmost match.
\<close>

fun search1 :: "rx \<Rightarrow> string \<Rightarrow> string option" where
  "search1 r [] = (case rmatch r (Map.empty, []) of [] \<Rightarrow> None | (c, _) # _ \<Rightarrow> c 1)"
| "search1 r (x # xs) =
     (case rmatch r (Map.empty, x # xs) of [] \<Rightarrow> search1 r xs | (c, _) # _ \<Rightarrow> c 1)"

section \<open>The citation parser (validate-citation.ts)\<close>

record parsed =
  documentRef :: string
  articleRef :: "string option"

text \<open>\<open>bis|ter|quater|quinquies|sexies|septies|octies|novies|decies\<close>\<close>

definition ordinals :: rx where
  "ordinals = alts (map word_ci
     [''bis'', ''ter'', ''quater'', ''quinquies'', ''sexies'', ''septies'', ''octies'',
      ''novies'', ''decies''])"

text \<open>\<open>\d+(?:bis|ter|...|decies)?[a-z]*\<close>\<close>

definition article_number :: rx where
  "article_number = cats [Plus rx_digit, Opt ordinals, Star rx_letter]"

text \<open>\<open>/^Art\.?\s*(\d+(?:bis|...)?[a-z]*)\s+(.+)$/i\<close>\<close>

definition artFirst_rx :: rx where
  "artFirst_rx = cats [word_ci ''Art'', Opt (chr_ci CHR ''.''), Star rx_space,
     Grp 1 article_number, Plus rx_space, Grp 2 (Plus rx_dot), Eos]"

text \<open>\<open>/^(.+?)[,;]?\s*Art\.?\s*(\d+(?:bis|...)?[a-z]*)$/i\<close>\<close>

definition artLast_rx :: rx where
  "artLast_rx = cats [Grp 1 (LazyPlus rx_dot),
     Opt (Atom (\<lambda>x. x = CHR '','' \<or> x = CHR '';'')), Star rx_space,
     word_ci ''Art'', Opt (chr_ci CHR ''.''), Star rx_space,
     Grp 2 article_number, Eos]"

text \<open>\<open>/^SR\s*([\d.]+)\s*[,;]?\s*Art\.?\s*(\d+[a-z]*)$/i\<close>\<close>

definition srWithArt_rx :: rx where
  "srWithArt_rx = cats [word_ci ''SR'', Star rx_space,
     Grp 1 (Plus (Atom (\<lambda>x. is_digit x \<or> x = CHR ''.''))), Star rx_space,
     Opt (Atom (\<lambda>x. x = CHR '','' \<or> x = CHR '';'')), Star rx_space,
     word_ci ''Art'', Opt (chr_ci CHR ''.''), Star rx_space,
     Grp 2 (cats [Plus rx_digit, Star rx_letter]), Eos]"

text \<open>
  \<open>parseCitation\<close> returns \<open>{documentRef, articleRef?} | null\<close>; \<open>None\<close> is \<open>null\<close>.
\<close>

definition parseCitation :: "string \<Rightarrow> parsed option" where
  "parseCitation citation =
     (let trimmed = trim citation in
      case match2 artFirst_rx trimmed of
        Some (g1, g2) \<Rightarrow> Some \<lparr>documentRef = trim g2, articleRef = Some g1\<rparr>
      | None \<Rightarrow>
     (case match2 artLast_rx trimmed of
        Some (g1, g2) \<Rightarrow> Some \<lparr>documentRef = trim g1, articleRef = Some g2\<rparr>
      | None \<Rightarrow>
     (case match2 srWithArt_rx trimmed of
        Some (g1, g2) \<Rightarrow> Some \<lparr>documentRef = ''SR '' @ g1, articleRef = Some g2\<rparr>
      | None \<Rightarrow> Some \<lparr>documentRef = trimmed, articleRef = None\<rparr>)))"

section \<open>The store\<close>

text \<open>
  The tools read a SQLite database. A table is the list of its rows in the order in which
  a scan returns them, so that \<open>.get()\<close> and \<open>LIMIT 1\<close> take the first row that passes the
  \<open>WHERE\<close> clause. Only the columns read by the modelled queries are kept. A column that
  may hold \<open>NULL\<close> is an option; a comparison with \<open>NULL\<close> is not true. The table
  \<open>db_metadata\<close> may be absent from the database file (\<open>None\<close>).
\<close>

record legal_document =
  d_id :: string
  d_title :: string
  d_title_en :: "string option"
  d_short_name :: "string option"
  d_status :: string

record legal_provision =
  p_document_id :: string
  p_provision_ref :: string
  p_section :: "string option"

record database =
  legal_documents :: "legal_document list"
  legal_provisions :: "legal_provision list"
  db_metadata :: "(string \<times> string) list option"

text \<open>What a \<open>throw\<close> carries: an \<open>Error\<close> object with its message, or any other value.\<close>

datatype js_throw = JsError string | JsValue string

text \<open>
  SQLite's \<open>text LIKE pattern\<close>, with the pattern as the first argument here: \<open>%\<close>
  stands for any run of characters, \<open>_\<close> for one character, and the other characters
  compare without regard to ASCII case (SQLite's default; the source sets no
  \<open>case_sensitive_like\<close>).
\<close>

fun like :: "string \<Rightarrow> string \<Rightarrow> bool" where
  "like [] s = (s = [])"
| "like (p # ps) [] = (p = CHR ''%'' \<and> like ps [])"
| "like (p # ps) (x # xs) =
     (if p = CHR ''%'' then like ps (x # xs) \<or> like (p # ps) xs
      else (p = CHR ''_'' \<or> lower_char p = lower_char x) \<and> like ps xs)"

text \<open>
  The SQL function behind \<open>LIKE\<close> first measures its pattern: a pattern of more bytes
  than SQLite's limit (\<open>SQLITE_MAX_LIKE_PATTERN_LENGTH\<close>, 50000 unless the build changes
  it) makes the statement fail with an error, which \<open>.get()\<close> throws. The pattern is
  bound as UTF-8 text, in which a code unit below 128 takes one byte and the others of
  the modelled range take two. A \<open>NULL\<close> operand gives \<open>NULL\<close>, which is not true.
\<close>

definition utf8_length :: "string \<Rightarrow> int" where
  "utf8_length s = sum_list (map (\<lambda>x. if code x < 128 then 1 else 2) s)"

definition like_pattern_limit :: int where
  "like_pattern_limit = 50000"

definition sql_like :: "string \<Rightarrow> string option \<Rightarrow> js_throw + bool" where
  "sql_like pat col =
     (if like_pattern_limit < utf8_length pat then
        Inl (JsError ''LIKE or GLOB pattern too complex'')
      else Inr (case col of None \<Rightarrow> False | Some v \<Rightarrow> like pat v))"

text \<open>
  \<open>a OR b\<close> in a \<open>WHERE\<close> clause: \<open>b\<close> is only evaluated when \<open>a\<close> is not true.
\<close>

definition sql_or :: "js_throw + bool \<Rightarrow> js_throw + bool \<Rightarrow> js_throw + bool" where
  "sql_or a b = (case a of Inl e \<Rightarrow> Inl e | Inr t \<Rightarrow> if t then Inr True else b)"

text \<open>
  \<open>SELECT ... WHERE w LIMIT 1\<close> read with \<open>.get()\<close>: the rows are tested in order; the
  first row for which \<open>w\<close> is true is the result, and an error of \<open>w\<close> at a row that is
  reached is thrown.
\<close>

fun select_first :: "('a \<Rightarrow> js_throw + bool) \<Rightarrow> 'a list \<Rightarrow> js_throw + 'a option" where
  "select_first w [] = Inr None"
| "select_first w (row # rows) =
     (case w row of
        Inl e \<Rightarrow> Inl e
      | Inr t \<Rightarrow> if t then Inr (Some row) else select_first w rows)"

text \<open>SQLite's \<open>LOWER\<close>.\<close>

definition lower :: "string \<Rightarrow> string" where
  "lower s = map lower_char s"

section \<open>Response metadata (metadata.ts)\<close>

record ResponseMetadata =
  data_source :: string
  jurisdiction :: string
  disclaimer :: string
  freshness :: "string option"

record 'a ToolResponse =
  results :: 'a
  metadata :: ResponseMetadata

text \<open>
  \<open>db.prepare("SELECT value FROM db_metadata WHERE key = 'built_at'").get()\<close>: throws when
  the table does not exist, otherwise gives the first row with that key, if any.
\<close>

definition select_built_at :: "database \<Rightarrow> js_throw + string option" where
  "select_built_at db =
     (case db_metadata db of
        None \<Rightarrow> Inl (JsError ''no such table: db_metadata'')
      | Some rows \<Rightarrow> Inr (map_option snd (find (\<lambda>(k, v). k = ''built_at'') rows)))"

text \<open>
  The dash in the \<open>data_source\<close> literal is U+2014, outside the modelled range; it is
  written here as its three UTF-8 bytes.
\<close>

definition generateResponseMetadata :: "database \<Rightarrow> ResponseMetadata" where
  "generateResponseMetadata db =
     (let freshness =
            (case select_built_at db of
               Inl e \<Rightarrow> None
             | Inr row \<Rightarrow> (case row of Some v \<Rightarrow> Some v | None \<Rightarrow> None))
      in \<lparr>data_source = ''Fedlex (fedlex.admin.ch) '' @ [CHR 0xE2, CHR 0x80, CHR 0x94]
             @ '' Swiss Federal Chancellery'',
          jurisdiction = ''CH'',
          disclaimer =
            ''This data is sourced from Fedlex under Open Government Data principles. '' @
            ''The authoritative versions are in German, French, and Italian. '' @
            ''English translations are unofficial. Always verify with the official Fedlex portal.'',
          freshness = freshness\<rparr>)"

section \<open>Statute id resolution (statute-id.ts)\<close>

text \<open>\<open>/(?:SR\s*)?(\d+(?:\.\d+)*)/i\<close>\<close>

definition srMatch_rx :: rx where
  "srMatch_rx = cats [Opt (cats [word_ci ''SR'', Star rx_space]),
     Grp 1 (cats [Plus rx_digit, Star (cats [chr_ci CHR ''.'', Plus rx_digit])])]"

text \<open>\<open>srNumber.replace(/\./g, '-')\<close>\<close>

definition dots_to_dashes :: "string \<Rightarrow> string" where
  "dots_to_dashes s = map (\<lambda>x. if x = CHR ''.'' then CHR ''-'' else x) s"

text \<open>
  \<open>resolveDocumentId\<close> returns \<open>string | null\<close>, or throws what a query throws. The
  first query compares with \<open>=\<close> and cannot fail.
\<close>

definition resolveDocumentId :: "database \<Rightarrow> string \<Rightarrow> js_throw + string option" where
  "resolveDocumentId db input =
     (let trimmed = trim input in
      if trimmed = [] then Inr None
      else
        case find (\<lambda>d. d_id d = trimmed) (legal_documents db) of
          Some directMatch \<Rightarrow> Inr (Some (d_id directMatch))
        | None \<Rightarrow>
        (case (case search1 srMatch_rx trimmed of
                 None \<Rightarrow> Inr None
               | Some srNumber \<Rightarrow>
                   select_first
                     (\<lambda>d. sql_or
                        (sql_like (''%sr-'' @ dots_to_dashes srNumber @ ''%'') (Some (d_id d)))
                        (sql_like (''%'' @ srNumber @ ''%'') (d_short_name d)))
                     (legal_documents db)) of
           Inl e \<Rightarrow> Inl e
         | Inr (Some srResult) \<Rightarrow> Inr (Some (d_id srResult))
         | Inr None \<Rightarrow>
        (case select_first
                (\<lambda>d. sql_or (sql_like (''%'' @ trimmed @ ''%'') (Some (d_title d)))
                       (sql_or (sql_like (''%'' @ trimmed @ ''%'') (d_short_name d))
                               (sql_like (''%'' @ trimmed @ ''%'') (d_title_en d))))
                (legal_documents db) of
           Inl e \<Rightarrow> Inl e
         | Inr (Some titleResult) \<Rightarrow> Inr (Some (d_id titleResult))
         | Inr None \<Rightarrow>
        (case select_first
                (\<lambda>d. sql_or (sql_like (lower (''%'' @ trimmed @ ''%''))
                                (Some (lower (d_title d))))
                       (sql_or (sql_like (lower (''%'' @ trimmed @ ''%''))
                                  (map_option lower (d_short_name d)))
                               (sql_like (lower (''%'' @ trimmed @ ''%''))
                                  (map_option lower (d_title_en d)))))
                (legal_documents db) of
           Inl e \<Rightarrow> Inl e
         | Inr (Some lowerResult) \<Rightarrow> Inr (Some (d_id lowerResult))
         | Inr None \<Rightarrow> Inr None))))"

section \<open>validate_citation (validate-citation.ts)\<close>

record ValidateCitationResult =
  valid :: bool
  citation :: string
  normalized :: "string option"
  document_id :: "string option"
  document_title :: "string option"
  provision_ref :: "string option"
  status :: "string option"
  warnings :: "string list"

definition dq :: string where
  "dq = [CHR 0x22]"

text \<open>
  \<open>if (!docId)\<close> and \<open>if (parsed.articleRef)\<close>: a string is truthy when it is defined
  and not empty.
\<close>

definition truthy :: "string option \<Rightarrow> string option" where
  "truthy x = (case x of None \<Rightarrow> None | Some a \<Rightarrow> if a = [] then None else Some a)"

text \<open>The warnings pushed after the document's status was read.\<close>

definition status_warnings :: "string \<Rightarrow> string list" where
  "status_warnings st =
     (if st = ''repealed'' then [''WARNING: This statute has been repealed.'']
      else if st = ''amended'' then
        [''Note: This statute has been amended. Verify you are referencing the current version.'']
      else [])"

text \<open>
  \<open>SELECT provision_ref FROM legal_provisions WHERE document_id = ? AND
  (provision_ref = ? OR provision_ref = ? OR section = ?)\<close>, with the parameters
  \<open>docId, articleRef, `art${articleRef}`, articleRef\<close>.
\<close>

definition select_provision :: "database \<Rightarrow> string \<Rightarrow> string \<Rightarrow> legal_provision option" where
  "select_provision db docId a =
     find (\<lambda>p. p_document_id p = docId \<and>
                (p_provision_ref p = a \<or> p_provision_ref p = ''art'' @ a \<or> p_section p = Some a))
          (legal_provisions db)"

text \<open>
  What the resolver throws is not caught here. The document row is read without a check;
  were it missing, reading \<open>doc.status\<close> would throw a \<open>TypeError\<close>.
\<close>

definition validateCitationTool ::
  "database \<Rightarrow> string \<Rightarrow> js_throw + ValidateCitationResult ToolResponse" where
  "validateCitationTool db input_citation =
     (case parseCitation input_citation of
        None \<Rightarrow>
          Inr \<lparr>results = \<lparr>valid = False, citation = input_citation, normalized = None,
                 document_id = None, document_title = None, provision_ref = None,
                 status = None, warnings = [''Could not parse citation format'']\<rparr>,
               metadata = generateResponseMetadata db\<rparr>
      | Some parsed \<Rightarrow>
     (case resolveDocumentId db (documentRef parsed) of
        Inl e \<Rightarrow> Inl e
      | Inr resolved \<Rightarrow>
     (case truthy resolved of
        None \<Rightarrow>
          Inr \<lparr>results = \<lparr>valid = False, citation = input_citation, normalized = None,
                 document_id = None, document_title = None, provision_ref = None,
                 status = None,
                 warnings = [''Document not found: '' @ dq @ documentRef parsed @ dq]\<rparr>,
               metadata = generateResponseMetadata db\<rparr>
      | Some docId \<Rightarrow>
     (case find (\<lambda>d. d_id d = docId) (legal_documents db) of
        None \<Rightarrow> Inl (JsError ''Cannot read properties of undefined (reading 'status')'')
      | Some doc \<Rightarrow>
     (let warnings = status_warnings (d_status doc) in
      case truthy (articleRef parsed) of
        Some a \<Rightarrow>
          (case select_provision db docId a of
             None \<Rightarrow>
               Inr \<lparr>results = \<lparr>valid = False, citation = input_citation, normalized = None,
                      document_id = Some docId, document_title = Some (d_title doc),
                      provision_ref = None, status = None,
                      warnings = warnings @
                        [''Provision '' @ dq @ a @ dq @ '' not found in '' @ d_title doc]\<rparr>,
                    metadata = generateResponseMetadata db\<rparr>
           | Some provision \<Rightarrow>
               Inr \<lparr>results = \<lparr>valid = True, citation = input_citation,
                      normalized = Some (''Art. '' @ a @ '' '' @ d_title doc),
                      document_id = Some docId, document_title = Some (d_title doc),
                      provision_ref = Some (p_provision_ref provision),
                      status = Some (d_status doc), warnings = warnings\<rparr>,
                    metadata = generateResponseMetadata db\<rparr>)
      | None \<Rightarrow>
          Inr \<lparr>results = \<lparr>valid = True, citation = input_citation,
                 normalized = Some (d_title doc),
                 document_id = Some docId, document_title = Some (d_title doc),
                 provision_ref = None, status = Some (d_status doc), warnings = warnings\<rparr>,
               metadata = generateResponseMetadata db\<rparr>)))))"

section \<open>format_citation (format-citation.ts)\<close>

record FormatCitationInput =
  fc_citation :: string
  fc_format :: "string option"

record FormatCitationResult =
  original :: string
  formatted :: string
  format :: string

text \<open>\<open>\d+[a-z]*(?:bis|ter)?\<close>\<close>

definition fmt_article_number :: rx where
  "fmt_article_number =
     cats [Plus rx_digit, Star rx_letter, Opt (alts [word_ci ''bis'', word_ci ''ter''])]"

text \<open>\<open>/^Art\.?\s*(\d+[a-z]*(?:bis|ter)?)\s+(.+)$/i\<close>\<close>

definition fmt_artFirst_rx :: rx where
  "fmt_artFirst_rx = cats [word_ci ''Art'', Opt (chr_ci CHR ''.''), Star rx_space,
     Grp 1 fmt_article_number, Plus rx_space, Grp 2 (Plus rx_dot), Eos]"

text \<open>\<open>/^(.+?)[,;]?\s*Art\.?\s*(\d+[a-z]*(?:bis|ter)?)$/i\<close>\<close>

definition fmt_artLast_rx :: rx where
  "fmt_artLast_rx = cats [Grp 1 (LazyPlus rx_dot),
     Opt (Atom (\<lambda>x. x = CHR '','' \<or> x = CHR '';'')), Star rx_space,
     word_ci ''Art'', Opt (chr_ci CHR ''.''), Star rx_space,
     Grp 2 fmt_article_number, Eos]"

text \<open>\<open>article ? f(article) : law\<close>\<close>

definition with_article :: "string option \<Rightarrow> (string \<Rightarrow> string) \<Rightarrow> string \<Rightarrow> string" where
  "with_article article f law = (case truthy article of Some a \<Rightarrow> f a | None \<Rightarrow> law)"

definition formatCitationTool :: "FormatCitationInput \<Rightarrow> FormatCitationResult" where
  "formatCitationTool input =
     (let format = (case fc_format input of None \<Rightarrow> ''full'' | Some f \<Rightarrow> f);
          trimmed = trim (fc_citation input);
          artFirst = match2 fmt_artFirst_rx trimmed;
          artLast = match2 fmt_artLast_rx trimmed;
          article = (case artFirst of
                       Some (g1, g2) \<Rightarrow> Some g1
                     | None \<Rightarrow> (case artLast of Some (g1, g2) \<Rightarrow> Some g2 | None \<Rightarrow> None));
          law = (case artFirst of
                   Some (g1, g2) \<Rightarrow> g2
                 | None \<Rightarrow> (case artLast of Some (g1, g2) \<Rightarrow> g1 | None \<Rightarrow> trimmed));
          formatted =
            (if format = ''short'' then
               with_article article
                 (\<lambda>a. ''Art. '' @ a @ '' '' @ trim (takeWhile (\<lambda>x. x \<noteq> CHR ''('') law)) law
             else if format = ''pinpoint'' then
               with_article article (\<lambda>a. ''Art. '' @ a) law
             else
               with_article article (\<lambda>a. ''Art. '' @ a @ '' '' @ law) law)
      in \<lparr>original = fc_citation input, formatted = formatted, format = format\<rparr>)"

section \<open>Tool dispatch (registry.ts)\<close>








section \<open>Example stores\<close>

definition dsg :: legal_document where
  "dsg = \<lparr>d_id = ''sr-235-1'', d_title = ''Datenschutzgesetz'',
           d_title_en = Some ''Data Protection Act'', d_short_name = Some ''DSG'',
           d_status = ''in_force''\<rparr>"

definition store_dsg :: database where
  "store_dsg = \<lparr>legal_documents = [dsg],
     legal_provisions =
       [\<lparr>p_document_id = ''sr-235-1'', p_provision_ref = ''art6'', p_section = Some ''6''\<rparr>],
     db_metadata = None\<rparr>"

text \<open>A repealed and an amended act, each with its first article.\<close>

definition store_lifecycle :: database where
  "store_lifecycle = \<lparr>legal_documents =
       [\<lparr>d_id = ''sr-1'', d_title = ''Altes Gesetz'', d_title_en = None,
          d_short_name = Some ''AG'', d_status = ''repealed''\<rparr>,
        \<lparr>d_id = ''sr-2'', d_title = ''Neues Gesetz'', d_title_en = None,
          d_short_name = Some ''NG'', d_status = ''amended''\<rparr>],
     legal_provisions =
       [\<lparr>p_document_id = ''sr-1'', p_provision_ref = ''art1'', p_section = Some ''1''\<rparr>,
        \<lparr>p_document_id = ''sr-2'', p_provision_ref = ''art1'', p_section = Some ''1''\<rparr>],
     db_metadata = Some [(''built_at'', ''2026-02-22'')]\<rparr>"

text \<open>A store in which the id of the second document ends with a space.\<close>

definition store_padded_id :: database where
  "store_padded_id = \<lparr>legal_documents =
       [\<lparr>d_id = ''sr-10'', d_title = ''A'', d_title_en = None, d_short_name = None,
          d_status = ''in_force''\<rparr>,
        \<lparr>d_id = ''sr-1 '', d_title = ''B'', d_title_en = None, d_short_name = None,
          d_status = ''in_force''\<rparr>],
     legal_provisions = [], db_metadata = None\<rparr>"

text \<open>
  A store with a document whose title ends with an article reference, and a document
  whose title ends with a space.
\<close>

definition store_odd_titles :: database where
  "store_odd_titles = \<lparr>legal_documents =
       [\<lparr>d_id = ''sr-9'', d_title = ''Verordnung zu Art. 5'', d_title_en = None,
          d_short_name = None, d_status = ''in_force''\<rparr>,
        \<lparr>d_id = ''sr-8'', d_title = ''Gesetz '', d_title_en = None,
          d_short_name = None, d_status = ''in_force''\<rparr>],
     legal_provisions =
       [\<lparr>p_document_id = ''sr-8'', p_provision_ref = ''art1'', p_section = Some ''1''\<rparr>],
     db_metadata = None\<rparr>"

text \<open>A store whose only document, a repealed act, has the empty string as its id.\<close>

definition store_empty_id :: database where
  "store_empty_id = \<lparr>legal_documents =
       [\<lparr>d_id = [], d_title = ''Foo'', d_title_en = None, d_short_name = None,
          d_status = ''repealed''\<rparr>],
     legal_provisions = [], db_metadata = None\<rparr>"


section \<open>Predicates used in the statements\<close>

text \<open>
  The shape of an article token: one or more digits followed by ASCII letters.
\<close>

definition article_token :: "string \<Rightarrow> bool" where
  "article_token w =
     (\<exists>ds ls. w = ds @ ls \<and> ds \<noteq> [] \<and> list_all is_digit ds \<and> list_all is_letter ls)"

text \<open>
  A title that \<open>format_citation\<close> reads back unchanged after \<open>Art. N\<close>: not empty, no
  white space at either end, no line terminator.
\<close>

definition plain_title :: "string \<Rightarrow> bool" where
  "plain_title t =
     (t \<noteq> [] \<and> \<not> is_space (hd t) \<and> \<not> is_space (last t) \<and>
      list_all (\<lambda>x. \<not> is_line_terminator x) t)"

text \<open>A string that one of the two patterns of \<open>format_citation\<close> matches.\<close>

definition article_form :: "string \<Rightarrow> bool" where
  "article_form t = (match2 fmt_artFirst_rx t \<noteq> None \<or> match2 fmt_artLast_rx t \<noteq> None)"

text \<open>
  Every word that \<open>r\<close> can consume satisfies \<open>Q\<close>; every value that \<open>r\<close> can store in
  group \<open>n\<close> satisfies \<open>Q\<close>.
\<close>

definition consumes_only :: "rx \<Rightarrow> (string \<Rightarrow> bool) \<Rightarrow> bool" where
  "consumes_only r Q =
     (\<forall>c s c' s'. (c', s') \<in> set (rmatch r (c, s)) \<longrightarrow> (\<exists>w. s = w @ s' \<and> Q w))"

fun group_holds :: "nat \<Rightarrow> (string \<Rightarrow> bool) \<Rightarrow> rx \<Rightarrow> bool" where
  "group_holds n Q (Atom p) = True"
| "group_holds n Q Eps = True"
| "group_holds n Q (Cat r1 r2) = (group_holds n Q r1 \<and> group_holds n Q r2)"
| "group_holds n Q (Alt r1 r2) = (group_holds n Q r1 \<and> group_holds n Q r2)"
| "group_holds n Q (Opt r) = group_holds n Q r"
| "group_holds n Q (Star r) = group_holds n Q r"
| "group_holds n Q (LazyStar r) = group_holds n Q r"
| "group_holds n Q (Grp m r) = (if m = n then consumes_only r Q else group_holds n Q r)"
| "group_holds n Q Eos = True"

text \<open>Every match of \<open>r\<close> sets group \<open>n\<close>.\<close>

fun sets_group :: "nat \<Rightarrow> rx \<Rightarrow> bool" where
  "sets_group n (Atom p) = False"
| "sets_group n Eps = False"
| "sets_group n (Cat r1 r2) = (sets_group n r1 \<or> sets_group n r2)"
| "sets_group n (Alt r1 r2) = (sets_group n r1 \<and> sets_group n r2)"
| "sets_group n (Opt r) = False"
| "sets_group n (Star r) = False"
| "sets_group n (LazyStar r) = False"
| "sets_group n (Grp m r) = (m = n \<or> sets_group n r)"
| "sets_group n Eos = False"

section \<open>Properties of the matcher\<close>

text \<open>
  The equations of the starred forms call themselves; they are unfolded by hand.
\<close>

declare rmatch.simps(6,7) [simp del]

lemma star_mem:
  "(c', s') \<in> set (rmatch (Star r) (c, s)) \<longleftrightarrow>
     (c', s') = (c, s) \<or>
     (\<exists>c1 s1. (c1, s1) \<in> set (rmatch r (c, s)) \<and> length s1 < length s \<and>
        (c', s') \<in> set (rmatch (Star r) (c1, s1)))"
  by (subst rmatch.simps(6)) (auto split: if_splits)

lemma lazy_star_mem:
  "(c', s') \<in> set (rmatch (LazyStar r) (c, s)) \<longleftrightarrow>
     (c', s') = (c, s) \<or>
     (\<exists>c1 s1. (c1, s1) \<in> set (rmatch r (c, s)) \<and> length s1 < length s \<and>
        (c', s') \<in> set (rmatch (LazyStar r) (c1, s1)))"
  by (subst rmatch.simps(7)) (auto split: if_splits)

text \<open>A value stored in a group satisfies what the group's pattern can consume.\<close>

lemma group_invariant:
  "(c', s') \<in> set (rmatch r (c, s)) \<Longrightarrow> group_holds n Q r \<Longrightarrow>
   (\<forall>w. c n = Some w \<longrightarrow> Q w) \<Longrightarrow> (\<forall>w. c' n = Some w \<longrightarrow> Q w)"
proof (induction r "(c, s)" arbitrary: c s c' s' rule: rmatch.induct)
  case (1 p c s)
  then show ?case by (auto split: list.splits if_splits)
next
  case (2 c s)
  then show ?case by auto
next
  case (3 r1 r2 c s)
  from "3.prems"(1) obtain c1 s1 where
    m1: "(c1, s1) \<in> set (rmatch r1 (c, s))" and m2: "(c', s') \<in> set (rmatch r2 (c1, s1))"
    by auto
  from "3.prems"(2) have g1: "group_holds n Q r1" and g2: "group_holds n Q r2" by simp_all
  from "3.hyps"(1) [OF m1 g1 "3.prems"(3)] have "\<forall>w. c1 n = Some w \<longrightarrow> Q w" .
  from "3.hyps"(2) [OF m1 m2 g2 this] show ?case .
next
  case (4 r1 r2 c s)
  then show ?case by auto
next
  case (5 r c s)
  then show ?case by auto
next
  case (6 r c s)
  from "6.prems"(1) consider "(c', s') = (c, s)"
    | c1 s1 where "(c1, s1) \<in> set (rmatch r (c, s))" "length s1 < length s"
        "(c', s') \<in> set (rmatch (Star r) (c1, s1))"
    using star_mem [of c' s' r c s] by blast
  then show ?case
  proof cases
    case 1
    with "6.prems"(3) show ?thesis by simp
  next
    case 2
    from "6.prems"(2) have g: "group_holds n Q r" by simp
    from "6.hyps"(1) [OF 2(1) g "6.prems"(3)] have "\<forall>w. c1 n = Some w \<longrightarrow> Q w" .
    from "6.hyps"(2) [OF 2(1) refl 2(2) 2(3) "6.prems"(2) this] show ?thesis .
  qed
next
  case (7 r c s)
  from "7.prems"(1) consider "(c', s') = (c, s)"
    | c1 s1 where "(c1, s1) \<in> set (rmatch r (c, s))" "length s1 < length s"
        "(c', s') \<in> set (rmatch (LazyStar r) (c1, s1))"
    using lazy_star_mem [of c' s' r c s] by blast
  then show ?case
  proof cases
    case 1
    with "7.prems"(3) show ?thesis by simp
  next
    case 2
    from "7.prems"(2) have g: "group_holds n Q r" by simp
    from "7.hyps"(1) [OF 2(1) g "7.prems"(3)] have "\<forall>w. c1 n = Some w \<longrightarrow> Q w" .
    from "7.hyps"(2) [OF 2(1) refl 2(2) 2(3) "7.prems"(2) this] show ?thesis .
  qed
next
  case (8 m r c s)
  from "8.prems"(1) obtain c1 where
    m1: "(c1, s') \<in> set (rmatch r (c, s))" and
    c': "c' = c1(m \<mapsto> take (length s - length s') s)"
    by auto
  show ?case
  proof (cases "m = n")
    case True
    with "8.prems"(2) have "consumes_only r Q" by simp
    with m1 obtain w where "s = w @ s'" "Q w" unfolding consumes_only_def by blast
    with c' True show ?thesis by simp
  next
    case False
    with "8.prems"(2) have "group_holds n Q r" by simp
    from "8.hyps" [OF m1 this "8.prems"(3)] c' False show ?thesis by simp
  qed
next
  case (9 c s)
  then show ?case by (auto split: if_splits)
qed

text \<open>
  A group that is set stays set; a pattern with groups 1 and 2 outside of quantifiers and
  alternatives sets both in every match, so \<open>match2\<close> is \<open>None\<close> exactly when the pattern
  does not match, and \<open>search1\<close> finds group 1 wherever the pattern matches. This holds
  for all the patterns of the source.
\<close>

lemma group_defined:
  "(c', s') \<in> set (rmatch r (c, s)) \<Longrightarrow> sets_group n r \<or> c n \<noteq> None \<Longrightarrow> c' n \<noteq> None"
proof (induction r "(c, s)" arbitrary: c s c' s' rule: rmatch.induct)
  case (1 p c s)
  then show ?case by (auto split: list.splits if_splits)
next
  case (2 c s)
  then show ?case by auto
next
  case (3 r1 r2 c s)
  from "3.prems"(1) obtain c1 s1 where
    m1: "(c1, s1) \<in> set (rmatch r1 (c, s))" and m2: "(c', s') \<in> set (rmatch r2 (c1, s1))"
    by auto
  show ?case
  proof (cases "sets_group n r1 \<or> c n \<noteq> None")
    case True
    from "3.hyps"(1) [OF m1 True] have "c1 n \<noteq> None" .
    then have "sets_group n r2 \<or> c1 n \<noteq> None" by simp
    from "3.hyps"(2) [OF m1 m2 this] show ?thesis .
  next
    case False
    with "3.prems"(2) have "sets_group n r2 \<or> c1 n \<noteq> None" by simp
    from "3.hyps"(2) [OF m1 m2 this] show ?thesis .
  qed
next
  case (4 r1 r2 c s)
  then show ?case by auto
next
  case (5 r c s)
  then show ?case by auto
next
  case (6 r c s)
  from "6.prems"(2) have k: "c n \<noteq> None" by simp
  from "6.prems"(1) consider "(c', s') = (c, s)"
    | c1 s1 where "(c1, s1) \<in> set (rmatch r (c, s))" "length s1 < length s"
        "(c', s') \<in> set (rmatch (Star r) (c1, s1))"
    using star_mem [of c' s' r c s] by blast
  then show ?case
  proof cases
    case 1
    with k show ?thesis by simp
  next
    case 2
    from k have "sets_group n r \<or> c n \<noteq> None" by simp
    from "6.hyps"(1) [OF 2(1) this] have "sets_group n (Star r) \<or> c1 n \<noteq> None" by simp
    from "6.hyps"(2) [OF 2(1) refl 2(2) 2(3) this] show ?thesis .
  qed
next
  case (7 r c s)
  from "7.prems"(2) have k: "c n \<noteq> None" by simp
  from "7.prems"(1) consider "(c', s') = (c, s)"
    | c1 s1 where "(c1, s1) \<in> set (rmatch r (c, s))" "length s1 < length s"
        "(c', s') \<in> set (rmatch (LazyStar r) (c1, s1))"
    using lazy_star_mem [of c' s' r c s] by blast
  then show ?case
  proof cases
    case 1
    with k show ?thesis by simp
  next
    case 2
    from k have "sets_group n r \<or> c n \<noteq> None" by simp
    from "7.hyps"(1) [OF 2(1) this] have "sets_group n (LazyStar r) \<or> c1 n \<noteq> None" by simp
    from "7.hyps"(2) [OF 2(1) refl 2(2) 2(3) this] show ?thesis .
  qed
next
  case (8 m r c s)
  from "8.prems"(1) obtain c1 where
    m1: "(c1, s') \<in> set (rmatch r (c, s))" and
    c': "c' = c1(m \<mapsto> take (length s - length s') s)"
    by auto
  show ?case
  proof (cases "m = n")
    case True
    with c' show ?thesis by simp
  next
    case False
    with "8.prems"(2) have "sets_group n r \<or> c n \<noteq> None" by simp
    from "8.hyps" [OF m1 this] c' False show ?thesis by simp
  qed
next
  case (9 c s)
  then show ?case by (auto split: if_splits)
qed

lemma match2_None_iff:
  assumes "sets_group 1 r" and "sets_group 2 r"
  shows "match2 r s = None \<longleftrightarrow> rmatch r (Map.empty, s) = []"
proof (cases "rmatch r (Map.empty, s)")
  case Nil
  then show ?thesis by (simp add: match2_def)
next
  case (Cons st rest)
  obtain c s' where st: "st = (c, s')" by (cases st)
  with Cons have m: "(c, s') \<in> set (rmatch r (Map.empty, s))" by simp
  from group_defined [OF m, of 1] assms(1) have "c 1 \<noteq> None" by simp
  moreover from group_defined [OF m, of 2] assms(2) have "c 2 \<noteq> None" by simp
  ultimately show ?thesis using Cons st by (auto simp: match2_def)
qed

lemma patterns_set_groups:
  "sets_group 1 artFirst_rx \<and> sets_group 2 artFirst_rx"
  "sets_group 1 artLast_rx \<and> sets_group 2 artLast_rx"
  "sets_group 1 srWithArt_rx \<and> sets_group 2 srWithArt_rx"
  "sets_group 1 fmt_artFirst_rx \<and> sets_group 2 fmt_artFirst_rx"
  "sets_group 1 fmt_artLast_rx \<and> sets_group 2 fmt_artLast_rx"
  "sets_group 1 srMatch_rx"
  by (simp_all add: artFirst_rx_def artLast_rx_def srWithArt_rx_def fmt_artFirst_rx_def
        fmt_artLast_rx_def srMatch_rx_def word_ci_def chr_ci_def)

lemma search1_found:
  assumes "sets_group 1 r" and "rmatch r (Map.empty, s) \<noteq> []"
  shows "search1 r s \<noteq> None"
proof -
  from assms(2) obtain c s' rest where m: "rmatch r (Map.empty, s) = (c, s') # rest"
    by (cases "rmatch r (Map.empty, s)") auto
  then have "(c, s') \<in> set (rmatch r (Map.empty, s))" by simp
  from group_defined [OF this, of 1] assms(1) have "c 1 \<noteq> None" by simp
  with m show ?thesis by (cases s) auto
qed

lemmas char_class_defs = is_digit_def is_space_def is_letter_def is_lower_def is_upper_def
  is_line_terminator_def lower_char_def code_def

subsection \<open>What a pattern consumes\<close>

lemma co_weaken: "consumes_only r Q \<Longrightarrow> (\<And>w. Q w \<Longrightarrow> Q' w) \<Longrightarrow> consumes_only r Q'"
  unfolding consumes_only_def by blast

lemma co_atom: "(\<And>x. p x \<Longrightarrow> P x) \<Longrightarrow> consumes_only (Atom p) (\<lambda>w. w \<noteq> [] \<and> list_all P w)"
  unfolding consumes_only_def by (auto split: list.splits if_splits)

lemma co_cat:
  assumes "consumes_only r1 Q1" and "consumes_only r2 Q2"
  shows "consumes_only (Cat r1 r2) (\<lambda>w. \<exists>u v. w = u @ v \<and> Q1 u \<and> Q2 v)"
  unfolding consumes_only_def
proof (intro allI impI)
  fix c s c' s'
  assume "(c', s') \<in> set (rmatch (Cat r1 r2) (c, s))"
  then obtain c1 s1 where
    m1: "(c1, s1) \<in> set (rmatch r1 (c, s))" and m2: "(c', s') \<in> set (rmatch r2 (c1, s1))"
    by auto
  from assms(1) m1 obtain u where u: "s = u @ s1" "Q1 u" unfolding consumes_only_def by blast
  from assms(2) m2 obtain v where v: "s1 = v @ s'" "Q2 v" unfolding consumes_only_def by blast
  from u v have "s = (u @ v) @ s'" by simp
  with u v show "\<exists>w. s = w @ s' \<and> (\<exists>u v. w = u @ v \<and> Q1 u \<and> Q2 v)" by blast
qed

lemma co_cat_all:
  assumes "consumes_only r1 (list_all P)" and "consumes_only r2 (list_all P)"
  shows "consumes_only (Cat r1 r2) (list_all P)"
  by (rule co_weaken [OF co_cat [OF assms]]) auto

lemma co_alt:
  assumes "consumes_only r1 Q" and "consumes_only r2 Q"
  shows "consumes_only (Alt r1 r2) Q"
  using assms unfolding consumes_only_def by auto

lemma co_opt:
  assumes "consumes_only r (list_all P)"
  shows "consumes_only (Opt r) (list_all P)"
  using assms unfolding consumes_only_def by auto

lemma co_star_aux:
  assumes r: "consumes_only r (list_all P)"
  shows "(c', s') \<in> set (rmatch (Star r) (c, s)) \<Longrightarrow> \<exists>w. s = w @ s' \<and> list_all P w"
proof (induction "length s" arbitrary: c s rule: less_induct)
  case less
  from less.prems consider "(c', s') = (c, s)"
    | c1 s1 where "(c1, s1) \<in> set (rmatch r (c, s))" "length s1 < length s"
        "(c', s') \<in> set (rmatch (Star r) (c1, s1))"
    using star_mem [of c' s' r c s] by blast
  then show ?case
  proof cases
    case 1
    then show ?thesis by simp
  next
    case 2
    from r 2(1) obtain u where u: "s = u @ s1" "list_all P u"
      unfolding consumes_only_def by blast
    from less.hyps [OF 2(2) 2(3)] obtain v where v: "s1 = v @ s'" "list_all P v" by blast
    from u v have "s = (u @ v) @ s'" "list_all P (u @ v)" by simp_all
    then show ?thesis by blast
  qed
qed

lemma co_star:
  assumes "consumes_only r (list_all P)"
  shows "consumes_only (Star r) (list_all P)"
  unfolding consumes_only_def using co_star_aux [OF assms] by blast

lemma co_atom_all: "(\<And>x. p x \<Longrightarrow> P x) \<Longrightarrow> consumes_only (Atom p) (list_all P)"
  by (rule co_weaken [OF co_atom [of p P]]) auto

lemma co_plus:
  assumes "\<And>x. p x \<Longrightarrow> P x"
  shows "consumes_only (Plus (Atom p)) (\<lambda>w. w \<noteq> [] \<and> list_all P w)"
  unfolding Plus_def
  by (rule co_weaken [OF co_cat [OF co_atom [of p P] co_star [OF co_atom_all [of p P]]]])
     (auto simp: assms)

lemma upper_is_letter: "is_upper x \<Longrightarrow> is_letter x"
  by (simp add: is_letter_def)

lemma code_char_of: "n < 256 \<Longrightarrow> code (char_of n) = n"
  by (simp add: code_def)

lemma lower_char_letter:
  assumes "is_letter a" and "lower_char x = lower_char a"
  shows "is_letter x"
proof (cases "is_upper x")
  case True
  then show ?thesis by (rule upper_is_letter)
next
  case False
  then have x: "x = lower_char a" using assms(2) by (simp add: lower_char_def)
  show ?thesis
  proof (cases "is_upper a")
    case True
    then have "code a + 32 < 256" "97 \<le> code a + 32" "code a + 32 \<le> 122"
      by (simp_all add: is_upper_def)
    then have "is_lower (char_of (code a + 32))"
      by (simp add: is_lower_def code_char_of)
    with True x show ?thesis by (simp add: lower_char_def is_letter_def)
  next
    case False
    with x assms(1) show ?thesis by (simp add: lower_char_def)
  qed
qed

lemma co_chr_letter: "is_letter a \<Longrightarrow> consumes_only (chr_ci a) (list_all is_letter)"
  unfolding chr_ci_def by (rule co_atom_all) (rule lower_char_letter)

lemma co_ordinals: "consumes_only ordinals (list_all is_letter)"
  unfolding ordinals_def word_ci_def
  apply simp
  apply (intro co_alt co_cat_all co_chr_letter)
  apply (simp_all add: char_class_defs)
  done

lemma co_article_number: "consumes_only article_number article_token"
proof -
  have d: "consumes_only (Plus rx_digit) (\<lambda>w. w \<noteq> [] \<and> list_all is_digit w)"
    unfolding rx_digit_def by (rule co_plus)
  have l: "consumes_only (Cat (Opt ordinals) (Star rx_letter)) (list_all is_letter)"
    unfolding rx_letter_def
    by (intro co_cat_all co_opt co_ordinals co_star co_atom_all)
  have "consumes_only (Cat (Plus rx_digit) (Cat (Opt ordinals) (Star rx_letter)))
          (\<lambda>w. \<exists>u v. w = u @ v \<and> (u \<noteq> [] \<and> list_all is_digit u) \<and> list_all is_letter v)"
    by (rule co_cat [OF d l])
  then show ?thesis
    unfolding article_number_def article_token_def by (simp add: co_weaken)
qed

lemma co_sr_article: "consumes_only (cats [Plus rx_digit, Star rx_letter]) article_token"
proof -
  have d: "consumes_only (Plus rx_digit) (\<lambda>w. w \<noteq> [] \<and> list_all is_digit w)"
    unfolding rx_digit_def by (rule co_plus)
  have l: "consumes_only (Star rx_letter) (list_all is_letter)"
    unfolding rx_letter_def by (intro co_star co_atom_all)
  have "consumes_only (Cat (Plus rx_digit) (Star rx_letter))
          (\<lambda>w. \<exists>u v. w = u @ v \<and> (u \<noteq> [] \<and> list_all is_digit u) \<and> list_all is_letter v)"
    by (rule co_cat [OF d l])
  then show ?thesis
    unfolding article_token_def by (simp add: co_weaken)
qed

subsection \<open>The article reference of a parsed citation\<close>

lemma gh_artFirst: "group_holds 1 article_token artFirst_rx"
  by (simp add: artFirst_rx_def word_ci_def chr_ci_def Plus_def rx_space_def rx_dot_def
        co_article_number)

lemma gh_artLast: "group_holds 2 article_token artLast_rx"
  by (simp add: artLast_rx_def word_ci_def chr_ci_def LazyPlus_def rx_space_def rx_dot_def
        co_article_number)

lemma gh_srWithArt: "group_holds 2 article_token srWithArt_rx"
  using co_sr_article
  by (simp add: srWithArt_rx_def word_ci_def chr_ci_def Plus_def rx_space_def)

lemma match2_group1:
  assumes "match2 r s = Some (g1, g2)" and "group_holds 1 Q r"
  shows "Q g1"
proof -
  from assms(1) obtain c s' rest where
    m: "rmatch r (Map.empty, s) = (c, s') # rest" and g: "c 1 = Some g1"
    by (auto simp: match2_def split: list.splits option.splits)
  from m have "(c, s') \<in> set (rmatch r (Map.empty, s))" by simp
  from group_invariant [OF this assms(2)] g show ?thesis by simp
qed

lemma match2_group2:
  assumes "match2 r s = Some (g1, g2)" and "group_holds 2 Q r"
  shows "Q g2"
proof -
  from assms(1) obtain c s' rest where
    m: "rmatch r (Map.empty, s) = (c, s') # rest" and g: "c 2 = Some g2"
    by (auto simp: match2_def split: list.splits option.splits)
  from m have "(c, s') \<in> set (rmatch r (Map.empty, s))" by simp
  from group_invariant [OF this assms(2)] g show ?thesis by simp
qed

lemma parse_article_token:
  assumes "parseCitation s = Some p" and "articleRef p = Some a"
  shows "article_token a"
  using assms
  by (auto simp: parseCitation_def Let_def split: option.splits
        dest: match2_group1 [OF _ gh_artFirst] match2_group2 [OF _ gh_artLast]
              match2_group2 [OF _ gh_srWithArt])

lemma article_token_nonempty: "article_token a \<Longrightarrow> a \<noteq> []"
  by (auto simp: article_token_def)

lemma parse_total: "parseCitation s \<noteq> None"
  by (simp add: parseCitation_def Let_def split: option.splits)

lemma truthy_Some: "truthy x = Some a \<Longrightarrow> x = Some a \<and> a \<noteq> []"
  by (auto simp: truthy_def split: option.splits if_splits)

subsection \<open>The first match\<close>

lemma cat_first:
  assumes "\<exists>t. rmatch r1 (c, s) = x # t" and "\<exists>t. rmatch r2 x = y # t"
  shows "\<exists>t. rmatch (Cat r1 r2) (c, s) = y # t"
  using assms by auto

lemma atom_first: "p x \<Longrightarrow> \<exists>t. rmatch (Atom p) (c, x # s) = (c, s) # t"
  by simp

lemma atom_fails: "s = [] \<or> \<not> p (hd s) \<Longrightarrow> rmatch (Atom p) (c, s) = []"
  by (cases s) auto

lemma star_atom_first:
  assumes "list_all p xs" and "rest = [] \<or> \<not> p (hd rest)"
  shows "\<exists>t. rmatch (Star (Atom p)) (c, xs @ rest) = (c, rest) # t"
  using assms(1)
proof (induction xs)
  case Nil
  from atom_fails [of rest p c, OF assms(2)] show ?case
    by (subst rmatch.simps(6)) simp
next
  case (Cons x xs)
  then obtain t where "rmatch (Star (Atom p)) (c, xs @ rest) = (c, rest) # t" by auto
  with Cons.prems show ?case
    by (subst rmatch.simps(6)) simp
qed

lemma plus_atom_first:
  assumes "xs \<noteq> []" and "list_all p xs" and "rest = [] \<or> \<not> p (hd rest)"
  shows "\<exists>t. rmatch (Plus (Atom p)) (c, xs @ rest) = (c, rest) # t"
proof -
  from assms(1) obtain x xs' where xs: "xs = x # xs'" by (cases xs) auto
  with assms(2) have "p x" "list_all p xs'" by simp_all
  from atom_first [of p x c "xs' @ rest"] star_atom_first [OF this(2) assms(3), of c] this(1)
  show ?thesis
    unfolding Plus_def xs by (simp del: rmatch.simps) (rule cat_first; blast)
qed

lemma grp_first:
  assumes "\<exists>t. rmatch r (c, w @ s') = (c', s') # t"
  shows "\<exists>t. rmatch (Grp n r) (c, w @ s') = (c'(n \<mapsto> w), s') # t"
  using assms by auto

lemma trim_plain:
  assumes "s \<noteq> []" and "\<not> is_space (hd s)" and "\<not> is_space (last s)"
  shows "trim s = s"
proof -
  from assms(1,2) have a: "dropWhile is_space s = s" by (cases s) auto
  from assms(1,3) have "dropWhile is_space (rev s) = rev s"
    by (cases "rev s") (auto simp: last_rev [symmetric] simp del: last_rev)
  with a show ?thesis by (simp add: trim_def)
qed

lemma digit_not_space: "is_digit x \<Longrightarrow> \<not> is_space x"
  by (auto simp: is_digit_def is_space_def)

lemma letter_not_digit: "is_letter x \<Longrightarrow> \<not> is_digit x"
  by (auto simp: is_digit_def is_letter_def is_lower_def is_upper_def)

lemma fmt_article_number_first:
  assumes ds: "ds \<noteq> []" "list_all is_digit ds" and ls: "list_all is_letter ls"
  shows "\<exists>t. rmatch fmt_article_number (c, (ds @ ls) @ CHR '' '' # title) =
               (c, CHR '' '' # title) # t"
proof -
  have nd: "ls @ CHR '' '' # title = [] \<or> \<not> is_digit (hd (ls @ CHR '' '' # title))"
    using ls by (cases ls) (auto simp: letter_not_digit, simp add: char_class_defs)
  have d: "\<exists>t. rmatch (Plus rx_digit) (c, ds @ (ls @ CHR '' '' # title)) =
                 (c, ls @ CHR '' '' # title) # t"
    unfolding rx_digit_def by (rule plus_atom_first [OF ds nd])
  have nl: "CHR '' '' # title = [] \<or> \<not> is_letter (hd (CHR '' '' # title))"
    by (simp add: char_class_defs)
  have l: "\<exists>t. rmatch (Star rx_letter) (c, ls @ CHR '' '' # title) = (c, CHR '' '' # title) # t"
    unfolding rx_letter_def by (rule star_atom_first [OF ls nl])
  have o: "\<exists>t. rmatch (Opt (alts [word_ci ''bis'', word_ci ''ter''])) (c, CHR '' '' # title) =
                 (c, CHR '' '' # title) # t"
    by (simp add: word_ci_def chr_ci_def char_class_defs)
  have "\<exists>t. rmatch (Cat (Plus rx_digit) (Cat (Star rx_letter)
                (Opt (alts [word_ci ''bis'', word_ci ''ter'']))))
              (c, ds @ (ls @ CHR '' '' # title)) = (c, CHR '' '' # title) # t"
    by (rule cat_first [OF d cat_first [OF l o]])
  then show ?thesis
    unfolding fmt_article_number_def by simp
qed

lemma fmt_artFirst_first:
  assumes ds: "ds \<noteq> []" "list_all is_digit ds" and ls: "list_all is_letter ls"
    and t: "plain_title t"
  shows "\<exists>r. rmatch fmt_artFirst_rx (Map.empty, ''Art. '' @ (ds @ ls) @ '' '' @ t) =
               ([1 \<mapsto> ds @ ls, 2 \<mapsto> t], []) # r"
proof -
  let ?c1 = "[1 \<mapsto> ds @ ls]"
  from t have t1: "t \<noteq> []" and t2: "\<not> is_space (hd t)"
    and t3: "list_all (\<lambda>x. \<not> is_line_terminator x) t"
    by (simp_all add: plain_title_def)
  have h6: "\<exists>r. rmatch Eos (?c1(2 \<mapsto> t), []) = (?c1(2 \<mapsto> t), []) # r" by simp
  have "\<exists>r. rmatch (Plus rx_dot) (?c1, t @ []) = (?c1, []) # r"
    unfolding rx_dot_def by (rule plus_atom_first [OF t1 t3]) simp
  then have h5: "\<exists>r. rmatch (Grp 2 (Plus rx_dot)) (?c1, t) = (?c1(2 \<mapsto> t), []) # r"
    using grp_first [of "Plus rx_dot" ?c1 t "[]" ?c1 2] by simp
  have "\<exists>r. rmatch (Plus rx_space) (?c1, '' '' @ t) = (?c1, t) # r"
    unfolding rx_space_def
    by (rule plus_atom_first) (use t1 t2 in \<open>simp_all add: is_space_def code_def\<close>)
  then have h4: "\<exists>r. rmatch (Plus rx_space) (?c1, CHR '' '' # t) = (?c1, t) # r" by simp
  have "\<exists>r. rmatch (Grp 1 fmt_article_number) (Map.empty, (ds @ ls) @ CHR '' '' # t) =
              (?c1, CHR '' '' # t) # r"
    by (rule grp_first [OF fmt_article_number_first [OF ds ls]])
  then have h3: "\<exists>r. rmatch (Grp 1 fmt_article_number) (Map.empty, ds @ ls @ CHR '' '' # t) =
              (?c1, CHR '' '' # t) # r" by simp
  have nsp: "ds @ ls @ CHR '' '' # t = [] \<or> \<not> is_space (hd (ds @ ls @ CHR '' '' # t))"
    using ds by (cases ds) (auto simp: digit_not_space)
  have "\<exists>r. rmatch (Star rx_space) (Map.empty, '' '' @ ds @ ls @ CHR '' '' # t) =
              (Map.empty, ds @ ls @ CHR '' '' # t) # r"
    unfolding rx_space_def
    using star_atom_first [of is_space "'' ''" "ds @ ls @ CHR '' '' # t" Map.empty] nsp
    by (simp add: is_space_def code_def del: rmatch.simps)
  then have h2: "\<exists>r. rmatch (Star rx_space) (Map.empty, CHR '' '' # ds @ ls @ CHR '' '' # t) =
              (Map.empty, ds @ ls @ CHR '' '' # t) # r" by simp
  have h1: "\<exists>r. rmatch (Opt (chr_ci CHR ''.'')) (Map.empty, CHR ''.'' # CHR '' '' # ds @ ls @ CHR '' '' # t) =
              (Map.empty, CHR '' '' # ds @ ls @ CHR '' '' # t) # r"
    by (simp add: chr_ci_def)
  have h0: "\<exists>r. rmatch (word_ci ''Art'')
               (Map.empty, CHR ''A'' # CHR ''r'' # CHR ''t'' # CHR ''.'' # CHR '' '' # ds @ ls @ CHR '' '' # t) =
              (Map.empty, CHR ''.'' # CHR '' '' # ds @ ls @ CHR '' '' # t) # r"
    by (simp add: word_ci_def chr_ci_def)
  note chain = cat_first [OF h0 cat_first [OF h1 cat_first [OF h2 cat_first [OF h3
                 cat_first [OF h4 cat_first [OF h5 h6]]]]]]
  then show ?thesis
    unfolding fmt_artFirst_rx_def by simp
qed

lemma fmt_artFirst_match:
  assumes "article_token a" and "plain_title t"
  shows "match2 fmt_artFirst_rx (''Art. '' @ a @ '' '' @ t) = Some (a, t)"
proof -
  from assms(1) obtain ds ls where a: "a = ds @ ls" and ds: "ds \<noteq> []" "list_all is_digit ds"
    and ls: "list_all is_letter ls"
    by (auto simp: article_token_def)
  from fmt_artFirst_first [OF ds ls assms(2)] obtain r where
    "rmatch fmt_artFirst_rx (Map.empty, ''Art. '' @ (ds @ ls) @ '' '' @ t) =
       ([1 \<mapsto> ds @ ls, 2 \<mapsto> t], []) # r" by blast
  then show ?thesis unfolding a match2_def by simp
qed

lemma trim_article_line:
  assumes "plain_title t"
  shows "trim (''Art. '' @ a @ '' '' @ t) = ''Art. '' @ a @ '' '' @ t"
proof (rule trim_plain)
  show "''Art. '' @ a @ '' '' @ t \<noteq> []" by simp
  show "\<not> is_space (hd (''Art. '' @ a @ '' '' @ t))" by (simp add: is_space_def code_def)
  from assms show "\<not> is_space (last (''Art. '' @ a @ '' '' @ t))"
    by (simp add: plain_title_def)
qed

lemma format_article_line:
  assumes "article_token a" and "plain_title t"
  shows "formatted (formatCitationTool
           \<lparr>fc_citation = ''Art. '' @ a @ '' '' @ t, fc_format = Some ''full''\<rparr>) =
         ''Art. '' @ a @ '' '' @ t"
proof -
  from assms(1) have "a \<noteq> []" by (rule article_token_nonempty)
  then show ?thesis
    using fmt_artFirst_match [OF assms] trim_article_line [OF assms(2), of a]
    by (simp add: formatCitationTool_def Let_def with_article_def truthy_def)
qed

lemma format_bare_title:
  assumes "plain_title t" and "\<not> article_form t"
  shows "formatted (formatCitationTool \<lparr>fc_citation = t, fc_format = Some ''full''\<rparr>) = t"
proof -
  from assms(1) have "trim t = t" by (intro trim_plain) (simp_all add: plain_title_def)
  moreover from assms(2) have "match2 fmt_artFirst_rx t = None" "match2 fmt_artLast_rx t = None"
    unfolding article_form_def by blast+
  ultimately show ?thesis
    by (simp add: formatCitationTool_def Let_def with_article_def truthy_def)
qed

section \<open>Properties of the resolver and of the validator\<close>

lemma find_id_exists:
  assumes "find P ds = Some d"
  shows "\<exists>doc. find (\<lambda>r. d_id r = d_id d) ds = Some doc \<and> d_id doc = d_id d"
proof -
  from assms have "d \<in> set ds" by (auto simp: find_Some_iff)
  then have "find (\<lambda>r. d_id r = d_id d) ds \<noteq> None" by (auto simp: find_None_iff)
  then obtain doc where h: "find (\<lambda>r. d_id r = d_id d) ds = Some doc" by blast
  then have "d_id doc = d_id d" by (auto simp: find_Some_iff)
  with h show ?thesis by blast
qed

lemma select_first_Some: "select_first w rows = Inr (Some r) \<Longrightarrow> r \<in> set rows"
  by (induction rows) (auto split: sum.splits if_splits)

lemma member_id_exists:
  assumes "d \<in> set ds"
  shows "\<exists>doc. find (\<lambda>r. d_id r = d_id d) ds = Some doc \<and> d_id doc = d_id d"
proof -
  from assms have "find (\<lambda>r. d_id r = d_id d) ds \<noteq> None" by (auto simp: find_None_iff)
  then obtain doc where h: "find (\<lambda>r. d_id r = d_id d) ds = Some doc" by blast
  then have "d_id doc = d_id d" by (auto simp: find_Some_iff)
  with h show ?thesis by blast
qed

text \<open>An id that the resolver returns is the id of a row of the table.\<close>

lemma resolve_row:
  assumes "resolveDocumentId db x = Inr (Some i)"
  shows "\<exists>doc. find (\<lambda>r. d_id r = i) (legal_documents db) = Some doc \<and> d_id doc = i"
  using assms unfolding resolveDocumentId_def Let_def
  by (auto split: if_splits option.splits sum.splits
        dest: find_id_exists member_id_exists [OF select_first_Some])

text \<open>
  The validator returns whenever the resolver does, and throws only what the resolver
  throws: the read of the document row never finds it missing.
\<close>

lemma validate_returns:
  assumes "parseCitation input = Some p" and "resolveDocumentId db (documentRef p) = Inr x"
  shows "\<exists>r. validateCitationTool db input = Inr r"
proof (cases "truthy x")
  case None
  with assms show ?thesis by (simp add: validateCitationTool_def)
next
  case (Some i)
  then have "x = Some i" by (auto simp: truthy_def split: option.splits if_splits)
  with assms(2) resolve_row obtain doc where
    "find (\<lambda>r. d_id r = i) (legal_documents db) = Some doc" by blast
  with assms Some show ?thesis
    by (simp add: validateCitationTool_def Let_def split: option.splits)
qed

lemma validate_throws:
  assumes "validateCitationTool db input = Inl e"
  shows "\<exists>p. parseCitation input = Some p \<and> resolveDocumentId db (documentRef p) = Inl e"
proof -
  from parse_total obtain p where p: "parseCitation input = Some p" by blast
  show ?thesis
  proof (cases "resolveDocumentId db (documentRef p)")
    case (Inl e')
    with p assms show ?thesis by (simp add: validateCitationTool_def)
  next
    case (Inr x)
    from validate_returns [OF p Inr] assms show ?thesis by simp
  qed
qed

text \<open>
  The resolver throws on a long reference: when no id equals it, it has no number, the
  table has a row and the pattern \<open>%reference%\<close> is over the limit.
\<close>

lemma resolve_throws:
  assumes "find (\<lambda>d. d_id d = trim x) (legal_documents db) = None"
    and "search1 srMatch_rx (trim x) = None"
    and "legal_documents db \<noteq> []"
    and "like_pattern_limit < utf8_length (''%'' @ trim x @ ''%'')"
  shows "resolveDocumentId db x = Inl (JsError ''LIKE or GLOB pattern too complex'')"
proof -
  from assms(3) obtain d ds where "legal_documents db = d # ds"
    by (cases "legal_documents db") auto
  moreover from assms(4) have "trim x \<noteq> []"
    by (auto simp: utf8_length_def like_pattern_limit_def code_def)
  ultimately show ?thesis
    using assms(1,2,4) by (simp add: resolveDocumentId_def sql_like_def sql_or_def)
qed

lemma match2_empty:
  "match2 artFirst_rx [] = None" "match2 artLast_rx [] = None" "match2 srWithArt_rx [] = None"
  by (simp_all add: match2_def artFirst_rx_def artLast_rx_def srWithArt_rx_def word_ci_def
        chr_ci_def LazyPlus_def rx_dot_def)

lemma parse_blank:
  assumes "trim s = []"
  shows "parseCitation s = Some \<lparr>documentRef = [], articleRef = None\<rparr>"
  using assms by (simp add: parseCitation_def match2_empty)

lemma resolve_blank: "trim x = [] \<Longrightarrow> resolveDocumentId db x = Inr None"
  by (simp add: resolveDocumentId_def)

lemma trim_nil: "trim [] = []"
  by (simp add: trim_def)

lemma validate_blank:
  assumes "trim s = []"
  shows "validateCitationTool db s =
     Inr \<lparr>results = \<lparr>valid = False, citation = s, normalized = None, document_id = None,
            document_title = None, provision_ref = None, status = None,
            warnings = [''Document not found: '' @ dq @ dq]\<rparr>,
          metadata = generateResponseMetadata db\<rparr>"
  using parse_blank [OF assms] resolve_blank [OF trim_nil, of db]
  by (simp add: validateCitationTool_def truthy_def)

section \<open>Runs on the example stores\<close>

text \<open>
  The model is executable: these are runs of the parser, the resolver, the validator, the
  formatter and the dispatcher on the example stores, computed by rewriting with the
  defining equations.
\<close>

lemma eval_art7:
  "parseCitation ''Art. 7 DSG'' = Some \<lparr>documentRef = ''DSG'', articleRef = Some ''7''\<rparr>"
  by code_simp

lemma eval_resolve_dsg: "resolveDocumentId store_dsg ''DSG'' = Inr (Some ''sr-235-1'')"
  by code_simp

lemma eval_find_dsg: "find (\<lambda>d. d_id d = ''sr-235-1'') (legal_documents store_dsg) = Some dsg"
  by (simp add: store_dsg_def dsg_def)

lemma parse_art_first:
  "parseCitation ''Art. 6 DSG'' = Some \<lparr>documentRef = ''DSG'', articleRef = Some ''6''\<rparr>"
  by code_simp

lemma parse_art_last:
  "parseCitation ''DSG, Art. 6'' = Some \<lparr>documentRef = ''DSG'', articleRef = Some ''6''\<rparr>"
  by code_simp

lemma parse_sr:
  "parseCitation ''SR 235.1 Art. 6'' =
     Some \<lparr>documentRef = ''SR 235.1'', articleRef = Some ''6''\<rparr>"
  by code_simp

lemma eval_validate_art6:
  "validateCitationTool store_dsg ''Art. 6 DSG'' =
     Inr \<lparr>results = \<lparr>valid = True, citation = ''Art. 6 DSG'',
            normalized = Some ''Art. 6 Datenschutzgesetz'', document_id = Some ''sr-235-1'',
            document_title = Some ''Datenschutzgesetz'', provision_ref = Some ''art6'',
            status = Some ''in_force'', warnings = []\<rparr>,
          metadata = generateResponseMetadata store_dsg\<rparr>"
  by code_simp

lemma eval_validate_bare:
  "validateCitationTool store_dsg ''sr-235-1'' =
     Inr \<lparr>results = \<lparr>valid = True, citation = ''sr-235-1'',
            normalized = Some ''Datenschutzgesetz'', document_id = Some ''sr-235-1'',
            document_title = Some ''Datenschutzgesetz'', provision_ref = None,
            status = Some ''in_force'', warnings = []\<rparr>,
          metadata = generateResponseMetadata store_dsg\<rparr>"
  by code_simp

lemma plain_dsg_title: "plain_title ''Datenschutzgesetz''"
  by (simp add: plain_title_def is_space_def is_line_terminator_def code_def)

lemma dsg_title_no_article: "\<not> article_form ''Datenschutzgesetz''"
  by code_simp

lemma eval_validate_art_title:
  "map_sum id (\<lambda>r. normalized (results r)) (validateCitationTool store_odd_titles ''sr-9'') =
     Inr (Some ''Verordnung zu Art. 5'')"
  by code_simp

lemma eval_format_art_title:
  "formatted (formatCitationTool
     \<lparr>fc_citation = ''Verordnung zu Art. 5'', fc_format = Some ''full''\<rparr>) =
     ''Art. 5 Verordnung zu''"
  by code_simp

lemma eval_validate_padded_title:
  "map_sum id (\<lambda>r. normalized (results r))
     (validateCitationTool store_odd_titles ''Art. 1 sr-8'') = Inr (Some ''Art. 1 Gesetz '')"
  by code_simp

lemma eval_format_padded_title:
  "formatted (formatCitationTool
     \<lparr>fc_citation = ''Art. 1 Gesetz '', fc_format = Some ''full''\<rparr>) = ''Art. 1 Gesetz''"
  by code_simp

lemma eval_parse_ag:
  "parseCitation ''Art. 1 AG'' = Some \<lparr>documentRef = ''AG'', articleRef = Some ''1''\<rparr>"
  by code_simp

lemma eval_parse_ng:
  "parseCitation ''sr-2'' = Some \<lparr>documentRef = ''sr-2'', articleRef = None\<rparr>"
  by code_simp

lemma eval_resolve_ag: "resolveDocumentId store_lifecycle ''AG'' = Inr (Some ''sr-1'')"
  by code_simp

lemma eval_resolve_ng: "resolveDocumentId store_lifecycle ''sr-2'' = Inr (Some ''sr-2'')"
  by code_simp

lemma eval_parse_art1_foo:
  "parseCitation ''Art. 1 Foo'' = Some \<lparr>documentRef = ''Foo'', articleRef = Some ''1''\<rparr>"
  by code_simp

lemma eval_parse_foo:
  "parseCitation ''Foo'' = Some \<lparr>documentRef = ''Foo'', articleRef = None\<rparr>"
  by code_simp

lemma eval_resolve_foo: "resolveDocumentId store_empty_id ''Foo'' = Inr (Some [])"
  by code_simp

lemma eval_validate_art1_foo:
  "validateCitationTool store_empty_id ''Art. 1 Foo'' =
     Inr \<lparr>results = \<lparr>valid = False, citation = ''Art. 1 Foo'', normalized = None,
            document_id = None, document_title = None, provision_ref = None, status = None,
            warnings = [''Document not found: '' @ dq @ ''Foo'' @ dq]\<rparr>,
          metadata = generateResponseMetadata store_empty_id\<rparr>"
  by code_simp

lemma eval_validate_foo:
  "validateCitationTool store_empty_id ''Foo'' =
     Inr \<lparr>results = \<lparr>valid = False, citation = ''Foo'', normalized = None,
            document_id = None, document_title = None, provision_ref = None, status = None,
            warnings = [''Document not found: '' @ dq @ ''Foo'' @ dq]\<rparr>,
          metadata = generateResponseMetadata store_empty_id\<rparr>"
  by code_simp




lemma select_built_at_absent:
  "select_built_at store_dsg = Inl (JsError ''no such table: db_metadata'')"
  by (simp add: select_built_at_def store_dsg_def)

lemma eval_validate_padded_citation:
  "validateCitationTool store_dsg ''  Art. 6 DSG '' =
     Inr \<lparr>results = \<lparr>valid = True, citation = ''  Art. 6 DSG '',
            normalized = Some ''Art. 6 Datenschutzgesetz'', document_id = Some ''sr-235-1'',
            document_title = Some ''Datenschutzgesetz'', provision_ref = Some ''art6'',
            status = Some ''in_force'', warnings = []\<rparr>,
          metadata = generateResponseMetadata store_dsg\<rparr>"
  by code_simp

section \<open>The claims\<close>

text \<open>
  Claim C1. The claim has the parser answer Unparseable for an input that is empty after
  trimming, and the validator then warn \<open>Could not parse citation format\<close>. The code at
  the empty citation: the parser returns the parse with the empty document reference and
  no article reference, and the validator returns \<open>valid = false\<close> with the warning
  \<open>Document not found: ""\<close>.
\<close>

theorem empty_citation_is_parsed:
  "trim [] = [] \<and> parseCitation [] = Some \<lparr>documentRef = [], articleRef = None\<rparr> \<and>
   validateCitationTool store_dsg [] =
     Inr \<lparr>results = \<lparr>valid = False, citation = [], normalized = None, document_id = None,
            document_title = None, provision_ref = None, status = None,
            warnings = [''Document not found: '' @ dq @ dq]\<rparr>,
          metadata = generateResponseMetadata store_dsg\<rparr>"
  using parse_blank [OF trim_nil] validate_blank [OF trim_nil, of store_dsg] trim_nil by simp

text \<open>
  Claim C2, as amended. When the document reference of a citation resolves to the id of
  a document, the id is not empty, and the parsed article reference equals no provision
  of that document, neither as it is, nor with \<open>art\<close> before it, nor as the section
  label, then \<open>validate_citation\<close> returns \<open>valid = false\<close>; its warnings are the
  warnings for the document's status followed by the warning that the provision was not
  found, and the result has the id and the title of the document.
\<close>

theorem provision_not_found:
  assumes "parseCitation cit = Some p"
    and "resolveDocumentId db (documentRef p) = Inr (Some i)"
    and "i \<noteq> []"
    and "articleRef p = Some a"
    and "\<forall>q \<in> set (legal_provisions db). p_document_id q = i \<longrightarrow>
           p_provision_ref q \<noteq> a \<and> p_provision_ref q \<noteq> ''art'' @ a \<and> p_section q \<noteq> Some a"
  shows "\<exists>doc r. find (\<lambda>d. d_id d = i) (legal_documents db) = Some doc \<and>
           validateCitationTool db cit = Inr r \<and>
           valid (results r) = False \<and>
           warnings (results r) = status_warnings (d_status doc) @
             [''Provision '' @ dq @ a @ dq @ '' not found in '' @ d_title doc] \<and>
           document_id (results r) = Some i \<and>
           document_title (results r) = Some (d_title doc)"
proof -
  from resolve_row [OF assms(2)] obtain doc where
    d: "find (\<lambda>r. d_id r = i) (legal_documents db) = Some doc" by blast
  from assms(3) have i: "truthy (Some i) = Some i" by (simp add: truthy_def)
  from parse_article_token [OF assms(1,4)] have "a \<noteq> []" by (rule article_token_nonempty)
  with assms(4) have t: "truthy (articleRef p) = Some a" by (simp add: truthy_def)
  from assms(5) have s: "select_provision db i a = None"
    by (auto simp: select_provision_def find_None_iff)
  from assms(1,2) i d t s show ?thesis
    by (simp add: validateCitationTool_def Let_def)
qed

theorem provision_not_found_witness:
  "parseCitation ''Art. 7 DSG'' = Some \<lparr>documentRef = ''DSG'', articleRef = Some ''7''\<rparr> \<and>
   resolveDocumentId store_dsg ''DSG'' = Inr (Some ''sr-235-1'') \<and>
   (\<exists>r. validateCitationTool store_dsg ''Art. 7 DSG'' = Inr r \<and>
        valid (results r) = False \<and>
        warnings (results r) =
          [''Provision '' @ dq @ ''7'' @ dq @ '' not found in Datenschutzgesetz''] \<and>
        document_id (results r) = Some ''sr-235-1'' \<and>
        document_title (results r) = Some ''Datenschutzgesetz'')"
proof -
  have h2: "resolveDocumentId store_dsg
              (documentRef \<lparr>documentRef = ''DSG'', articleRef = Some ''7''\<rparr>) =
            Inr (Some ''sr-235-1'')"
    using eval_resolve_dsg by simp
  have h3: "''sr-235-1'' \<noteq> []" by simp
  have h4: "articleRef \<lparr>documentRef = ''DSG'', articleRef = Some ''7''\<rparr> = Some ''7''" by simp
  have h5: "\<forall>q \<in> set (legal_provisions store_dsg). p_document_id q = ''sr-235-1'' \<longrightarrow>
           p_provision_ref q \<noteq> ''7'' \<and> p_provision_ref q \<noteq> ''art'' @ ''7'' \<and>
           p_section q \<noteq> Some ''7''"
    by (simp add: store_dsg_def)
  from provision_not_found [OF eval_art7 h2 h3 h4 h5] eval_find_dsg eval_art7 eval_resolve_dsg
  show ?thesis by (auto simp: dsg_def status_warnings_def)
qed

text \<open>
  C2 as stated fails when the resolved id is the empty string: the resolver returns the
  id of the document whose title matches, the validator tests the id for truthiness and
  reports that the document was not found, without a document id.
\<close>

theorem empty_id_provision_counterexample:
  "\<lparr>d_id = [], d_title = ''Foo'', d_title_en = None, d_short_name = None,
     d_status = ''repealed''\<rparr> \<in> set (legal_documents store_empty_id) \<and>
   parseCitation ''Art. 1 Foo'' = Some \<lparr>documentRef = ''Foo'', articleRef = Some ''1''\<rparr> \<and>
   resolveDocumentId store_empty_id ''Foo'' = Inr (Some []) \<and>
   legal_provisions store_empty_id = [] \<and>
   validateCitationTool store_empty_id ''Art. 1 Foo'' =
     Inr \<lparr>results = \<lparr>valid = False, citation = ''Art. 1 Foo'', normalized = None,
            document_id = None, document_title = None, provision_ref = None, status = None,
            warnings = [''Document not found: '' @ dq @ ''Foo'' @ dq]\<rparr>,
          metadata = generateResponseMetadata store_empty_id\<rparr>"
  using eval_parse_art1_foo eval_resolve_foo eval_validate_art1_foo
  by (simp add: store_empty_id_def)

text \<open>
  Claim C3. The three documented citations parse to the documented pairs.
\<close>

theorem parse_documented_forms:
  "parseCitation ''Art. 6 DSG'' = Some \<lparr>documentRef = ''DSG'', articleRef = Some ''6''\<rparr> \<and>
   parseCitation ''DSG, Art. 6'' = Some \<lparr>documentRef = ''DSG'', articleRef = Some ''6''\<rparr> \<and>
   parseCitation ''SR 235.1 Art. 6'' = Some \<lparr>documentRef = ''SR 235.1'', articleRef = Some ''6''\<rparr>"
  using parse_art_first parse_art_last parse_sr by blast

text \<open>
  Claim C4, as amended. Let \<open>s\<close> be the \<open>normalized\<close> field of a result of
  \<open>validate_citation\<close> for a document whose title is not empty, has no white space at
  either end and no line terminator. If a provision was targeted, so that \<open>s\<close> is
  \<open>Art. <ref> <title>\<close>, then \<open>format_citation(s, "full")\<close> returns \<open>s\<close> as its
  \<open>formatted\<close> field. If \<open>s\<close> is the bare title, it does so when neither pattern of
  \<open>format_citation\<close> matches the title.
\<close>

theorem format_reproduces_normalized:
  assumes "validateCitationTool db cit = Inr resp"
    and "normalized (results resp) = Some s"
    and "document_title (results resp) = Some t"
    and "plain_title t"
    and "provision_ref (results resp) = None \<longrightarrow> \<not> article_form t"
  shows "formatted (formatCitationTool \<lparr>fc_citation = s, fc_format = Some ''full''\<rparr>) = s"
proof -
  from assms(1,2) obtain p x i doc where
    p: "parseCitation cit = Some p" and
    x: "resolveDocumentId db (documentRef p) = Inr x" and
    i: "truthy x = Some i" and
    d: "find (\<lambda>d. d_id d = i) (legal_documents db) = Some doc"
    by (auto simp: validateCitationTool_def split: option.splits sum.splits)
  show ?thesis
  proof (cases "truthy (articleRef p)")
    case None
    with assms(1,2,3) p x i d have "s = t" "provision_ref (results resp) = None"
      by (auto simp: validateCitationTool_def Let_def split: option.splits)
    with assms(4,5) format_bare_title show ?thesis by simp
  next
    case (Some a)
    with assms(1,2,3) p x i d have s: "s = ''Art. '' @ a @ '' '' @ t"
      by (auto simp: validateCitationTool_def Let_def split: option.splits)
    from truthy_Some [OF Some] have "articleRef p = Some a" by simp
    from parse_article_token [OF p this] have "article_token a" .
    from format_article_line [OF this assms(4)] s show ?thesis by simp
  qed
qed

theorem format_reproduces_normalized_witness:
  "plain_title ''Datenschutzgesetz'' \<and> \<not> article_form ''Datenschutzgesetz'' \<and>
   map_sum id (\<lambda>r. normalized (results r)) (validateCitationTool store_dsg ''Art. 6 DSG'') =
     Inr (Some ''Art. 6 Datenschutzgesetz'') \<and>
   formatted (formatCitationTool
     \<lparr>fc_citation = ''Art. 6 Datenschutzgesetz'', fc_format = Some ''full''\<rparr>) =
     ''Art. 6 Datenschutzgesetz'' \<and>
   map_sum id (\<lambda>r. normalized (results r)) (validateCitationTool store_dsg ''sr-235-1'') =
     Inr (Some ''Datenschutzgesetz'') \<and>
   formatted (formatCitationTool
     \<lparr>fc_citation = ''Datenschutzgesetz'', fc_format = Some ''full''\<rparr>) = ''Datenschutzgesetz''"
proof -
  have a: "formatted (formatCitationTool
     \<lparr>fc_citation = ''Art. 6 Datenschutzgesetz'', fc_format = Some ''full''\<rparr>) =
     ''Art. 6 Datenschutzgesetz''"
    by (rule format_reproduces_normalized [OF eval_validate_art6 _ _ plain_dsg_title]) simp_all
  have b: "formatted (formatCitationTool
     \<lparr>fc_citation = ''Datenschutzgesetz'', fc_format = Some ''full''\<rparr>) = ''Datenschutzgesetz''"
    by (rule format_reproduces_normalized [OF eval_validate_bare _ _ plain_dsg_title])
       (simp_all add: dsg_title_no_article)
  from a b plain_dsg_title dsg_title_no_article show ?thesis
    by (simp add: eval_validate_art6 eval_validate_bare)
qed

text \<open>
  C4 as stated fails for a title that ends with an article reference: the validator
  gives the title as \<open>normalized\<close>, and the formatter reads the end of the title as the
  article and moves it to the front. It fails as well for a title that ends with a space,
  which the formatter trims away.
\<close>

theorem normalized_title_reparsed_counterexample:
  "map_sum id (\<lambda>r. normalized (results r)) (validateCitationTool store_odd_titles ''sr-9'') =
     Inr (Some ''Verordnung zu Art. 5'') \<and>
   formatted (formatCitationTool
     \<lparr>fc_citation = ''Verordnung zu Art. 5'', fc_format = Some ''full''\<rparr>) =
     ''Art. 5 Verordnung zu'' \<and>
   ''Art. 5 Verordnung zu'' \<noteq> ''Verordnung zu Art. 5'' \<and>
   map_sum id (\<lambda>r. normalized (results r))
     (validateCitationTool store_odd_titles ''Art. 1 sr-8'') = Inr (Some ''Art. 1 Gesetz '') \<and>
   formatted (formatCitationTool
     \<lparr>fc_citation = ''Art. 1 Gesetz '', fc_format = Some ''full''\<rparr>) = ''Art. 1 Gesetz'' \<and>
   ''Art. 1 Gesetz'' \<noteq> ''Art. 1 Gesetz ''"
  using eval_validate_art_title eval_format_art_title eval_validate_padded_title
    eval_format_padded_title
  by simp

text \<open>
  Claim C5, as amended. For every document of the store whose id is not empty and has no
  white space at either end, resolving the id gives the id.
\<close>

theorem resolve_exact_id:
  assumes "d \<in> set (legal_documents db)" and "d_id d \<noteq> []" and "trim (d_id d) = d_id d"
  shows "resolveDocumentId db (d_id d) = Inr (Some (d_id d))"
proof -
  from member_id_exists [OF assms(1)] obtain r where
    "find (\<lambda>r. d_id r = d_id d) (legal_documents db) = Some r" "d_id r = d_id d" by blast
  with assms(2,3) show ?thesis by (simp add: resolveDocumentId_def)
qed

theorem resolve_exact_id_witness:
  "dsg \<in> set (legal_documents store_dsg) \<and> d_id dsg \<noteq> [] \<and> trim (d_id dsg) = d_id dsg \<and>
   resolveDocumentId store_dsg (d_id dsg) = Inr (Some (d_id dsg))"
proof -
  have a: "dsg \<in> set (legal_documents store_dsg)" by (simp add: store_dsg_def)
  have b: "d_id dsg \<noteq> []" by (simp add: dsg_def)
  have c: "trim (d_id dsg) = d_id dsg" by (simp add: dsg_def trim_def char_class_defs)
  from resolve_exact_id [OF a b c] a b c show ?thesis by blast
qed

text \<open>
  C5 as stated fails for an id that ends with a space: the resolver trims its input, the
  exact match finds no row, and the match on the number gives another document.
\<close>

theorem resolve_padded_id_counterexample:
  "\<lparr>d_id = ''sr-1 '', d_title = ''B'', d_title_en = None, d_short_name = None,
     d_status = ''in_force''\<rparr> \<in> set (legal_documents store_padded_id) \<and>
   resolveDocumentId store_padded_id ''sr-1 '' = Inr (Some ''sr-10'')"
  by code_simp

text \<open>
  Claim C6, as amended. When the document reference of a citation resolves to the id of
  a document and the id is not empty, \<open>validate_citation\<close> returns a result whose
  warnings contain the repeal warning if the document is repealed and the advisory to
  verify the current version if it is amended; and when the citation has no article
  reference, or its article reference is a provision of the document, the result is valid
  and its warnings are exactly those for the status.
\<close>

theorem status_warnings_keep_validity:
  assumes "parseCitation cit = Some p"
    and "resolveDocumentId db (documentRef p) = Inr (Some i)"
    and "i \<noteq> []"
  shows "\<exists>doc r. find (\<lambda>d. d_id d = i) (legal_documents db) = Some doc \<and>
           validateCitationTool db cit = Inr r \<and>
           (d_status doc = ''repealed'' \<longrightarrow>
              ''WARNING: This statute has been repealed.'' \<in> set (warnings (results r))) \<and>
           (d_status doc = ''amended'' \<longrightarrow>
              ''Note: This statute has been amended. Verify you are referencing the current version.''
                \<in> set (warnings (results r))) \<and>
           (articleRef p = None \<or>
            (\<exists>a q. articleRef p = Some a \<and> select_provision db i a = Some q) \<longrightarrow>
              valid (results r) \<and> warnings (results r) = status_warnings (d_status doc))"
proof -
  from resolve_row [OF assms(2)] obtain doc where
    d: "find (\<lambda>r. d_id r = i) (legal_documents db) = Some doc" by blast
  from assms(3) have i: "truthy (Some i) = Some i" by (simp add: truthy_def)
  from validate_returns [OF assms(1,2)] obtain r where
    r: "validateCitationTool db cit = Inr r" by blast
  have w: "set (status_warnings (d_status doc)) \<subseteq> set (warnings (results r))"
    using r assms(1,2) i d
    by (auto simp: validateCitationTool_def Let_def split: option.splits)
  have a: "d_status doc = ''repealed'' \<longrightarrow>
              ''WARNING: This statute has been repealed.'' \<in> set (warnings (results r))"
    using w by (auto simp: status_warnings_def)
  have b: "d_status doc = ''amended'' \<longrightarrow>
              ''Note: This statute has been amended. Verify you are referencing the current version.''
                \<in> set (warnings (results r))"
    using w by (auto simp: status_warnings_def)
  have c: "articleRef p = None \<or>
            (\<exists>a q. articleRef p = Some a \<and> select_provision db i a = Some q) \<longrightarrow>
              valid (results r) \<and> warnings (results r) = status_warnings (d_status doc)"
  proof
    assume "articleRef p = None \<or> (\<exists>a q. articleRef p = Some a \<and> select_provision db i a = Some q)"
    then show "valid (results r) \<and> warnings (results r) = status_warnings (d_status doc)"
    proof
      assume "articleRef p = None"
      then have "truthy (articleRef p) = None" by (simp add: truthy_def)
      with r assms(1,2) i d show ?thesis by (auto simp: validateCitationTool_def Let_def)
    next
      assume "\<exists>a q. articleRef p = Some a \<and> select_provision db i a = Some q"
      then obtain a q where aq: "articleRef p = Some a" "select_provision db i a = Some q"
        by blast
      from parse_article_token [OF assms(1) aq(1)] have "a \<noteq> []"
        by (rule article_token_nonempty)
      with aq(1) have "truthy (articleRef p) = Some a" by (simp add: truthy_def)
      with r assms(1,2) i d aq(2) show ?thesis
        by (auto simp: validateCitationTool_def Let_def)
    qed
  qed
  from d r a b c show ?thesis by blast
qed

theorem status_warnings_keep_validity_witness:
  "parseCitation ''Art. 1 AG'' = Some \<lparr>documentRef = ''AG'', articleRef = Some ''1''\<rparr> \<and>
   resolveDocumentId store_lifecycle ''AG'' = Inr (Some ''sr-1'') \<and>
   map_sum id (\<lambda>r. (valid (results r), warnings (results r)))
     (validateCitationTool store_lifecycle ''Art. 1 AG'') =
   Inr (True, [''WARNING: This statute has been repealed.'']) \<and>
   parseCitation ''sr-2'' = Some \<lparr>documentRef = ''sr-2'', articleRef = None\<rparr> \<and>
   resolveDocumentId store_lifecycle ''sr-2'' = Inr (Some ''sr-2'') \<and>
   map_sum id (\<lambda>r. (valid (results r), warnings (results r)))
     (validateCitationTool store_lifecycle ''sr-2'') =
   Inr (True,
     [''Note: This statute has been amended. Verify you are referencing the current version.''])"
proof -
  have f1: "find (\<lambda>d. d_id d = ''sr-1'') (legal_documents store_lifecycle) =
     Some \<lparr>d_id = ''sr-1'', d_title = ''Altes Gesetz'', d_title_en = None,
          d_short_name = Some ''AG'', d_status = ''repealed''\<rparr>"
    by (simp add: store_lifecycle_def)
  have q1: "select_provision store_lifecycle ''sr-1'' ''1'' =
     Some \<lparr>p_document_id = ''sr-1'', p_provision_ref = ''art1'', p_section = Some ''1''\<rparr>"
    by (simp add: select_provision_def store_lifecycle_def)
  have h1: "resolveDocumentId store_lifecycle
       (documentRef \<lparr>documentRef = ''AG'', articleRef = Some ''1''\<rparr>) = Inr (Some ''sr-1'')"
    using eval_resolve_ag by simp
  have n1: "''sr-1'' \<noteq> []" by simp
  from status_warnings_keep_validity [OF eval_parse_ag h1 n1] f1 q1
  have a: "map_sum id (\<lambda>r. (valid (results r), warnings (results r)))
     (validateCitationTool store_lifecycle ''Art. 1 AG'') =
   Inr (True, [''WARNING: This statute has been repealed.''])"
    by (auto simp: status_warnings_def)
  have f2: "find (\<lambda>d. d_id d = ''sr-2'') (legal_documents store_lifecycle) =
     Some \<lparr>d_id = ''sr-2'', d_title = ''Neues Gesetz'', d_title_en = None,
          d_short_name = Some ''NG'', d_status = ''amended''\<rparr>"
    by (simp add: store_lifecycle_def)
  have h2: "resolveDocumentId store_lifecycle
       (documentRef \<lparr>documentRef = ''sr-2'', articleRef = None\<rparr>) = Inr (Some ''sr-2'')"
    using eval_resolve_ng by simp
  have n2: "''sr-2'' \<noteq> []" by simp
  from status_warnings_keep_validity [OF eval_parse_ng h2 n2] f2
  have b: "map_sum id (\<lambda>r. (valid (results r), warnings (results r)))
     (validateCitationTool store_lifecycle ''sr-2'') =
   Inr (True,
     [''Note: This statute has been amended. Verify you are referencing the current version.''])"
    by (auto simp: status_warnings_def)
  from a b eval_parse_ag eval_resolve_ag eval_parse_ng eval_resolve_ng
  show ?thesis by blast
qed

text \<open>
  C6 as stated fails when the resolved id is the empty string: the reference resolves to
  a repealed document, no provision is referenced, and the validator reports that the
  document was not found, with no repeal warning and \<open>valid = false\<close>.
\<close>

theorem empty_id_repealed_counterexample:
  "\<lparr>d_id = [], d_title = ''Foo'', d_title_en = None, d_short_name = None,
     d_status = ''repealed''\<rparr> \<in> set (legal_documents store_empty_id) \<and>
   parseCitation ''Foo'' = Some \<lparr>documentRef = ''Foo'', articleRef = None\<rparr> \<and>
   resolveDocumentId store_empty_id ''Foo'' = Inr (Some []) \<and>
   validateCitationTool store_empty_id ''Foo'' =
     Inr \<lparr>results = \<lparr>valid = False, citation = ''Foo'', normalized = None,
            document_id = None, document_title = None, provision_ref = None, status = None,
            warnings = [''Document not found: '' @ dq @ ''Foo'' @ dq]\<rparr>,
          metadata = generateResponseMetadata store_empty_id\<rparr>"
  using eval_parse_foo eval_resolve_foo eval_validate_foo
  by (simp add: store_empty_id_def)



text \<open>
  Claim C8. When the read of the build time throws, \<open>generateResponseMetadata\<close> still
  returns the metadata, with the data source, the jurisdiction and the disclaimer filled
  in and without freshness.
\<close>

theorem freshness_failure_swallowed:
  assumes "select_built_at db = Inl e"
  shows "freshness (generateResponseMetadata db) = None \<and>
         data_source (generateResponseMetadata db) \<noteq> [] \<and>
         jurisdiction (generateResponseMetadata db) = ''CH'' \<and>
         disclaimer (generateResponseMetadata db) \<noteq> []"
  using assms by (simp add: generateResponseMetadata_def)

theorem freshness_failure_swallowed_witness:
  "select_built_at store_dsg = Inl (JsError ''no such table: db_metadata'') \<and>
   freshness (generateResponseMetadata store_dsg) = None \<and>
   data_source (generateResponseMetadata store_dsg) \<noteq> [] \<and>
   jurisdiction (generateResponseMetadata store_dsg) = ''CH'' \<and>
   disclaimer (generateResponseMetadata store_dsg) \<noteq> []"
  using freshness_failure_swallowed [OF select_built_at_absent] select_built_at_absent by simp

text \<open>
  Claim C10. Every result that \<open>validate_citation\<close> returns has the input as its
  \<open>citation\<close> field, as it was given and not trimmed. The \<open>warnings\<close> field is a field
  of every result: the result type has it in every branch.
\<close>

theorem validate_echoes_citation:
  assumes "validateCitationTool db input = Inr r"
  shows "citation (results r) = input"
  using assms
  by (auto simp: validateCitationTool_def Let_def split: option.splits sum.splits)

theorem validate_echoes_citation_witness:
  "map_sum id (\<lambda>r. citation (results r)) (validateCitationTool store_dsg ''  Art. 6 DSG '') =
     Inr ''  Art. 6 DSG ''"
  using validate_echoes_citation [OF eval_validate_padded_citation]
  by (simp add: eval_validate_padded_citation)

end
